theory Spec2Isabelle
  imports Main
begin

section \<open>The sparse matrix of \<^verbatim>\<open>src/sparse.py\<close>\<close>

text \<open>
  Python integers are unbounded, so row indices, column indices, dimensions and
  values are all \<^typ>\<open>int\<close>. The class stores its entries in a \<^verbatim>\<open>dict\<close> keyed by
  the tuple \<^verbatim>\<open>(row, col)\<close>. A Python dict iterates in insertion order and holds
  each key once; assigning to a key that is present keeps the key's position. It
  is modelled as an association list in insertion order.
\<close>

type_synonym key = "int \<times> int"
type_synonym dict = "(key \<times> int) list"

text \<open>\<^verbatim>\<open>d.get(k, default)\<close>\<close>

definition dict_get :: "dict \<Rightarrow> key \<Rightarrow> int \<Rightarrow> int" where
  "dict_get d k dflt = (case map_of d k of None \<Rightarrow> dflt | Some v \<Rightarrow> v)"

text \<open>\<^verbatim>\<open>d[k] = v\<close>: overwrite in place, or append a new key at the end.\<close>

fun dict_set :: "dict \<Rightarrow> key \<Rightarrow> int \<Rightarrow> dict" where
  "dict_set [] k v = [(k, v)]"
| "dict_set (p # ps) k v = (if fst p = k then (k, v) # ps else p # dict_set ps k v)"

record SparseMatrix =
  row_count :: int
  col_count :: int
  data :: dict

text \<open>\<^verbatim>\<open>SparseMatrix.__init__(self, row_count, col_count)\<close>\<close>

definition SparseMatrix_init :: "int \<Rightarrow> int \<Rightarrow> SparseMatrix" where
  "SparseMatrix_init rows cols = \<lparr>row_count = rows, col_count = cols, data = []\<rparr>"

text \<open>\<^verbatim>\<open>get_element\<close>: \<^verbatim>\<open>self.data.get((row_idx, col_idx), 0)\<close>\<close>

definition get_element :: "SparseMatrix \<Rightarrow> int \<Rightarrow> int \<Rightarrow> int" where
  "get_element self row_idx col_idx = dict_get (data self) (row_idx, col_idx) 0"

text \<open>
  \<^verbatim>\<open>set_element\<close>: the two bound checks run one after the other on the object,
  then the entry is assigned. The method mutates \<^verbatim>\<open>self\<close>; the model returns the
  updated object.
\<close>

definition set_element :: "SparseMatrix \<Rightarrow> int \<Rightarrow> int \<Rightarrow> int \<Rightarrow> SparseMatrix" where
  "set_element self row_idx col_idx val =
     (let s1 = (if row_idx \<ge> row_count self then self\<lparr>row_count := row_idx + 1\<rparr> else self);
          s2 = (if col_idx \<ge> col_count s1 then s1\<lparr>col_count := col_idx + 1\<rparr> else s1)
      in s2\<lparr>data := dict_set (data s2) (row_idx, col_idx) val\<rparr>)"

text \<open>
  Every \<^verbatim>\<open>raise\<close> of the file is a constructor. All three arithmetic errors and
  the three loader errors are \<^verbatim>\<open>ValueError\<close>s in the source, told apart by
  their message; the entry error's message carries the 1-based line number and
  the trimmed line. \<open>DictChangedSize\<close> is the \<^verbatim>\<open>RuntimeError\<close> that the interpreter
  raises when a dict is resized while a loop iterates over it.
\<close>

datatype error =
    NotEnoughLines
  | InvalidHeaderFormat
  | InvalidEntryFormat nat string
  | FileNotFound
  | AdditionDimensions
  | SubtractionDimensions
  | MultiplicationDimensions
  | DictChangedSize

text \<open>
  \<^verbatim>\<open>add\<close>: the shape check, a fresh result, a loop that copies the entries of
  \<^verbatim>\<open>self\<close>, a loop that adds the entries of \<^verbatim>\<open>other_matrix\<close>. Each loop runs
  over \<^verbatim>\<open>.items()\<close> in dict order with the result as the loop state.
\<close>

definition copy_step :: "key \<times> int \<Rightarrow> SparseMatrix \<Rightarrow> SparseMatrix" where
  "copy_step = (\<lambda>((row, col), val) result. set_element result row col val)"

definition add_step :: "key \<times> int \<Rightarrow> SparseMatrix \<Rightarrow> SparseMatrix" where
  "add_step = (\<lambda>((row, col), val) result.
     (let current_val = get_element result row col
      in set_element result row col (current_val + val)))"

definition sub_step :: "key \<times> int \<Rightarrow> SparseMatrix \<Rightarrow> SparseMatrix" where
  "sub_step = (\<lambda>((row, col), val) result.
     (let current_val = get_element result row col
      in set_element result row col (current_val - val)))"

definition add :: "SparseMatrix \<Rightarrow> SparseMatrix \<Rightarrow> error + SparseMatrix" where
  "add self other_matrix =
     (if row_count self \<noteq> row_count other_matrix \<or> col_count self \<noteq> col_count other_matrix
      then Inl AdditionDimensions
      else
        (let result_matrix = SparseMatrix_init (row_count self) (col_count self);
             result_matrix = fold copy_step (data self) result_matrix;
             result_matrix = fold add_step (data other_matrix) result_matrix
         in Inr result_matrix))"

definition subtract :: "SparseMatrix \<Rightarrow> SparseMatrix \<Rightarrow> error + SparseMatrix" where
  "subtract self other_matrix =
     (if row_count self \<noteq> row_count other_matrix \<or> col_count self \<noteq> col_count other_matrix
      then Inl SubtractionDimensions
      else
        (let result_matrix = SparseMatrix_init (row_count self) (col_count self);
             result_matrix = fold copy_step (data self) result_matrix;
             result_matrix = fold sub_step (data other_matrix) result_matrix
         in Inr result_matrix))"

text \<open>
  \<^verbatim>\<open>range(n)\<close> is \<open>0, 1, \<dots>, n - 1\<close>, empty when \<open>n \<le> 0\<close>.
\<close>

definition py_range :: "int \<Rightarrow> int list" where
  "py_range n = [0..n - 1]"

text \<open>
  \<^verbatim>\<open>multiply\<close>: for every stored entry of \<^verbatim>\<open>self\<close> the inner loop runs \<open>k\<close> over
  \<^verbatim>\<open>range(other_matrix.col_count)\<close> and accumulates where the other matrix holds a
  value other than 0.
\<close>

definition mul_inner :: "SparseMatrix \<Rightarrow> int \<Rightarrow> int \<Rightarrow> int \<Rightarrow> int \<Rightarrow> SparseMatrix \<Rightarrow> SparseMatrix" where
  "mul_inner other_matrix row col val k result =
     (let other_val = get_element other_matrix col k
      in if other_val \<noteq> 0
         then (let current_val = get_element result row k
               in set_element result row k (current_val + val * other_val))
         else result)"

definition mul_step :: "SparseMatrix \<Rightarrow> key \<times> int \<Rightarrow> SparseMatrix \<Rightarrow> SparseMatrix" where
  "mul_step other_matrix = (\<lambda>((row, col), val) result.
     fold (mul_inner other_matrix row col val) (py_range (col_count other_matrix)) result)"

definition multiply :: "SparseMatrix \<Rightarrow> SparseMatrix \<Rightarrow> error + SparseMatrix" where
  "multiply self other_matrix =
     (if col_count self \<noteq> row_count other_matrix
      then Inl MultiplicationDimensions
      else
        (let result_matrix = SparseMatrix_init (row_count self) (col_count other_matrix);
             result_matrix = fold (mul_step other_matrix) (data self) result_matrix
         in Inr result_matrix))"

section \<open>The loader and the serializer\<close>

text \<open>
  Text is a list of characters; a character is a code point below 256, which
  covers every character the format itself uses. \<^verbatim>\<open>str.strip()\<close> and the
  regular expression class \<^verbatim>\<open>\s\<close> use the same whitespace test, and \<^verbatim>\<open>\d\<close>
  matches the decimal digits; below 256 these are the sets written out here.
\<close>

definition LF :: char where "LF = CHR 0x0A"
definition CR :: char where "CR = CHR 0x0D"

definition isspace :: "char \<Rightarrow> bool" where
  "isspace c = ((of_char c :: nat) \<in> {9, 10, 11, 12, 13, 28, 29, 30, 31, 32, 133, 160})"

definition isdigit :: "char \<Rightarrow> bool" where
  "isdigit c = (48 \<le> (of_char c :: nat) \<and> (of_char c :: nat) \<le> 57)"

text \<open>\<^verbatim>\<open>s.strip()\<close>\<close>

definition strip :: "string \<Rightarrow> string" where
  "strip s = rev (dropWhile isspace (rev (dropWhile isspace s)))"

text \<open>
  \<^verbatim>\<open>open(file_path, "r")\<close> reads in text mode with universal newlines: \<^verbatim>\<open>\r\n\<close> and
  a lone \<^verbatim>\<open>\r\<close> arrive as \<^verbatim>\<open>\n\<close>. \<^verbatim>\<open>readlines()\<close> splits after each \<^verbatim>\<open>\n\<close> and
  keeps it; a last line without \<^verbatim>\<open>\n\<close> is a line too.
\<close>

fun universal_newlines :: "string \<Rightarrow> string" where
  "universal_newlines [] = []"
| "universal_newlines [c] = (if c = CR then [LF] else [c])"
| "universal_newlines (c # d # cs) =
     (if c = CR then (if d = LF then LF # universal_newlines cs else LF # universal_newlines (d # cs))
      else c # universal_newlines (d # cs))"

fun split_lines :: "string \<Rightarrow> string list" where
  "split_lines [] = []"
| "split_lines (c # cs) =
     (if c = LF then [c] # split_lines cs
      else (case split_lines cs of [] \<Rightarrow> [[c]] | l # ls \<Rightarrow> (c # l) # ls))"

definition readlines :: "string \<Rightarrow> string list" where
  "readlines text = split_lines (universal_newlines text)"

text \<open>
  \<^verbatim>\<open>re.match\<close> anchors the pattern at the start of the string only. The three
  patterns of the loader are sequences of literals, \<^verbatim>\<open>\d+\<close>, \<^verbatim>\<open>\s*\<close> and \<^verbatim>\<open>-?\<close>.
  Each repetition is followed by something its class cannot match (a literal, or
  a digit after whitespace), so the longest run is the only way to match and
  the matcher below reads left to right without backtracking. It returns the
  captured groups.
\<close>

definition match_literal :: "string \<Rightarrow> string \<Rightarrow> string option" where
  "match_literal lit s = (if take (length lit) s = lit then Some (drop (length lit) s) else None)"

definition match_digits :: "string \<Rightarrow> (string \<times> string) option" where
  "match_digits s =
     (let ds = takeWhile isdigit s
      in if ds = [] then None else Some (ds, dropWhile isdigit s))"

definition match_spaces :: "string \<Rightarrow> string" where
  "match_spaces s = dropWhile isspace s"

definition match_int :: "string \<Rightarrow> (string \<times> string) option" where
  "match_int s =
     (case match_literal ''-'' s of
        Some s' \<Rightarrow> (case match_digits s' of None \<Rightarrow> None | Some (ds, r) \<Rightarrow> Some (CHR ''-'' # ds, r))
      | None \<Rightarrow> match_digits s)"

definition match_rows :: "string \<Rightarrow> string option" where
  "match_rows s =
     (case match_literal ''rows='' s of None \<Rightarrow> None
      | Some s1 \<Rightarrow> (case match_digits s1 of None \<Rightarrow> None | Some (g1, s2) \<Rightarrow> Some g1))"

definition match_cols :: "string \<Rightarrow> string option" where
  "match_cols s =
     (case match_literal ''cols='' s of None \<Rightarrow> None
      | Some s1 \<Rightarrow> (case match_digits s1 of None \<Rightarrow> None | Some (g1, s2) \<Rightarrow> Some g1))"

definition match_entry :: "string \<Rightarrow> (string \<times> string \<times> string) option" where
  "match_entry line =
     (case match_literal ''('' line of None \<Rightarrow> None | Some s1 \<Rightarrow>
      case match_digits s1 of None \<Rightarrow> None | Some (g1, s2) \<Rightarrow>
      case match_literal '','' s2 of None \<Rightarrow> None | Some s3 \<Rightarrow>
      case match_digits (match_spaces s3) of None \<Rightarrow> None | Some (g2, s4) \<Rightarrow>
      case match_literal '','' s4 of None \<Rightarrow> None | Some s5 \<Rightarrow>
      case match_int (match_spaces s5) of None \<Rightarrow> None | Some (g3, s6) \<Rightarrow>
      case match_literal '')'' s6 of None \<Rightarrow> None | Some s7 \<Rightarrow> Some (g1, g2, g3))"

text \<open>
  \<^verbatim>\<open>int(group)\<close> on a captured group: decimal digits, with a minus sign in front
  for the third group of an entry. Leading zeros are allowed. The groups the
  loader passes are never empty, so the conversion does not fail; the limit
  that some interpreter versions put on the number of digits is not modelled.
\<close>

definition digit_val :: "char \<Rightarrow> int" where
  "digit_val c = int (of_char c) - 48"

definition int_of_digits :: "string \<Rightarrow> int" where
  "int_of_digits ds = foldl (\<lambda>acc c. 10 * acc + digit_val c) 0 ds"

definition py_int :: "string \<Rightarrow> int" where
  "py_int s = (case match_literal ''-'' s of Some ds \<Rightarrow> - int_of_digits ds | None \<Rightarrow> int_of_digits s)"

text \<open>
  The loop \<^verbatim>\<open>for i in range(2, len(lines))\<close> of \<^verbatim>\<open>from_file\<close>, on the lines from
  index \<open>i\<close> on. The error message carries \<^verbatim>\<open>i + 1\<close> and the trimmed line.
\<close>

fun parse_entries :: "SparseMatrix \<Rightarrow> nat \<Rightarrow> string list \<Rightarrow> error + SparseMatrix" where
  "parse_entries sparse_matrix i [] = Inr sparse_matrix"
| "parse_entries sparse_matrix i (l # ls) =
     (let line = strip l in
      if line = [] then parse_entries sparse_matrix (i + 1) ls
      else
        (case match_entry line of
           None \<Rightarrow> Inl (InvalidEntryFormat (i + 1) line)
         | Some (g1, g2, g3) \<Rightarrow>
             (let row = py_int g1; col = py_int g2; val = py_int g3
              in parse_entries (set_element sparse_matrix row col val) (i + 1) ls)))"

text \<open>
  \<^verbatim>\<open>from_file\<close>. The argument is the text of the file, \<open>None\<close> when the file does
  not exist. The path appears in the messages only.
\<close>

definition from_file :: "string option \<Rightarrow> error + SparseMatrix" where
  "from_file content =
     (case content of
        None \<Rightarrow> Inl FileNotFound
      | Some text \<Rightarrow>
          (let lines = readlines text in
           if length lines < 2 then Inl NotEnoughLines
           else
             (let row_pattern = match_rows (strip (lines ! 0));
                  col_pattern = match_cols (strip (lines ! 1))
              in case (row_pattern, col_pattern) of
                   (Some g_rows, Some g_cols) \<Rightarrow>
                     (let total_rows = py_int g_rows; total_cols = py_int g_cols
                      in parse_entries (SparseMatrix_init total_rows total_cols) 2 (drop 2 lines))
                 | _ \<Rightarrow> Inl InvalidHeaderFormat)))"






text \<open>
  The shapes of the captured groups: \<^verbatim>\<open>\d+\<close>, \<^verbatim>\<open>\s*\<close> and \<^verbatim>\<open>-?\d+\<close>.
\<close>

definition digits1 :: "string \<Rightarrow> bool" where
  "digits1 g = (g \<noteq> [] \<and> list_all isdigit g)"

definition spaces :: "string \<Rightarrow> bool" where
  "spaces w = list_all isspace w"

definition signed_digits :: "string \<Rightarrow> bool" where
  "signed_digits g = (digits1 g \<or> (g \<noteq> [] \<and> hd g = CHR ''-'' \<and> digits1 (tl g)))"

text \<open>A trimmed, non-empty line that the entry pattern matches.\<close>

definition accepted :: "string \<Rightarrow> bool" where
  "accepted line = (match_entry line \<noteq> None)"





text \<open>A character that is no line break.\<close>

definition plain :: "char \<Rightarrow> bool" where
  "plain c = (c \<noteq> LF \<and> c \<noteq> CR)"



section \<open>The same methods on a store of objects\<close>

text \<open>
  The methods above pass the result matrix along as a value. The source works on
  objects: \<^verbatim>\<open>self\<close>, \<^verbatim>\<open>other_matrix\<close> and \<^verbatim>\<open>result_matrix\<close> are references, and
  \<^verbatim>\<open>set_element\<close> mutates the object it is called on. The store is the list of
  all \<^verbatim>\<open>SparseMatrix\<close> objects alive, a reference is an index into it, and
  \<^verbatim>\<open>SparseMatrix(...)\<close> allocates at the end. The two operands may be the same
  object.
\<close>

type_synonym ref = nat
type_synonym store = "SparseMatrix list"

definition new_SparseMatrix :: "store \<Rightarrow> int \<Rightarrow> int \<Rightarrow> ref \<times> store" where
  "new_SparseMatrix s rows cols = (length s, s @ [SparseMatrix_init rows cols])"

definition get_element_at :: "store \<Rightarrow> ref \<Rightarrow> int \<Rightarrow> int \<Rightarrow> int" where
  "get_element_at s self row_idx col_idx = get_element (s ! self) row_idx col_idx"

definition set_element_at :: "store \<Rightarrow> ref \<Rightarrow> int \<Rightarrow> int \<Rightarrow> int \<Rightarrow> store" where
  "set_element_at s self row_idx col_idx val = s[self := set_element (s ! self) row_idx col_idx val]"

text \<open>
  \<^verbatim>\<open>for (row, col), val in m.data.items(): body\<close>. The iterator reads the dict
  of the object as the store holds it at each step, position by position; the
  interpreter raises \<^verbatim>\<open>RuntimeError\<close> when the dict's size differs from the size
  at the start of the loop. \<open>n\<close> is that size and \<open>i\<close> the position.
\<close>

function items_loop :: "(key \<times> int \<Rightarrow> store \<Rightarrow> store) \<Rightarrow> ref \<Rightarrow> nat \<Rightarrow> nat \<Rightarrow> store \<Rightarrow> error option \<times> store" where
  "items_loop body src n i s =
     (if length (data (s ! src)) \<noteq> n then (Some DictChangedSize, s)
      else if i < n then items_loop body src n (i + 1) (body (data (s ! src) ! i) s)
      else (None, s))"
  by pat_completeness auto
termination
  by (relation "measure (\<lambda>(body, src, n, i, s). n - i)") auto

declare items_loop.simps [simp del]

definition for_items :: "ref \<Rightarrow> (key \<times> int \<Rightarrow> store \<Rightarrow> store) \<Rightarrow> store \<Rightarrow> error option \<times> store" where
  "for_items src body s = items_loop body src (length (data (s ! src))) 0 s"

text \<open>The loop bodies of \<^verbatim>\<open>add\<close>, \<^verbatim>\<open>subtract\<close> and \<^verbatim>\<open>multiply\<close>, on the store.\<close>

definition copy_body :: "ref \<Rightarrow> key \<times> int \<Rightarrow> store \<Rightarrow> store" where
  "copy_body result_matrix = (\<lambda>((row, col), val) s. set_element_at s result_matrix row col val)"

definition add_body :: "ref \<Rightarrow> key \<times> int \<Rightarrow> store \<Rightarrow> store" where
  "add_body result_matrix = (\<lambda>((row, col), val) s.
     (let current_val = get_element_at s result_matrix row col
      in set_element_at s result_matrix row col (current_val + val)))"

definition sub_body :: "ref \<Rightarrow> key \<times> int \<Rightarrow> store \<Rightarrow> store" where
  "sub_body result_matrix = (\<lambda>((row, col), val) s.
     (let current_val = get_element_at s result_matrix row col
      in set_element_at s result_matrix row col (current_val - val)))"

definition mul_inner_body :: "ref \<Rightarrow> ref \<Rightarrow> int \<Rightarrow> int \<Rightarrow> int \<Rightarrow> int \<Rightarrow> store \<Rightarrow> store" where
  "mul_inner_body result_matrix other_matrix row col val k s =
     (let other_val = get_element_at s other_matrix col k
      in if other_val \<noteq> 0
         then (let current_val = get_element_at s result_matrix row k
               in set_element_at s result_matrix row k (current_val + val * other_val))
         else s)"

definition mul_body :: "ref \<Rightarrow> ref \<Rightarrow> key \<times> int \<Rightarrow> store \<Rightarrow> store" where
  "mul_body result_matrix other_matrix = (\<lambda>((row, col), val) s.
     fold (mul_inner_body result_matrix other_matrix row col val)
       (py_range (col_count (s ! other_matrix))) s)"

definition add_at :: "store \<Rightarrow> ref \<Rightarrow> ref \<Rightarrow> (error + ref) \<times> store" where
  "add_at s self other_matrix =
     (if row_count (s ! self) \<noteq> row_count (s ! other_matrix) \<or>
         col_count (s ! self) \<noteq> col_count (s ! other_matrix)
      then (Inl AdditionDimensions, s)
      else
        (case new_SparseMatrix s (row_count (s ! self)) (col_count (s ! self)) of
           (result_matrix, s1) \<Rightarrow>
             (case for_items self (copy_body result_matrix) s1 of
                (Some e, s2) \<Rightarrow> (Inl e, s2)
              | (None, s2) \<Rightarrow>
                  (case for_items other_matrix (add_body result_matrix) s2 of
                     (Some e, s3) \<Rightarrow> (Inl e, s3)
                   | (None, s3) \<Rightarrow> (Inr result_matrix, s3)))))"

definition subtract_at :: "store \<Rightarrow> ref \<Rightarrow> ref \<Rightarrow> (error + ref) \<times> store" where
  "subtract_at s self other_matrix =
     (if row_count (s ! self) \<noteq> row_count (s ! other_matrix) \<or>
         col_count (s ! self) \<noteq> col_count (s ! other_matrix)
      then (Inl SubtractionDimensions, s)
      else
        (case new_SparseMatrix s (row_count (s ! self)) (col_count (s ! self)) of
           (result_matrix, s1) \<Rightarrow>
             (case for_items self (copy_body result_matrix) s1 of
                (Some e, s2) \<Rightarrow> (Inl e, s2)
              | (None, s2) \<Rightarrow>
                  (case for_items other_matrix (sub_body result_matrix) s2 of
                     (Some e, s3) \<Rightarrow> (Inl e, s3)
                   | (None, s3) \<Rightarrow> (Inr result_matrix, s3)))))"

definition multiply_at :: "store \<Rightarrow> ref \<Rightarrow> ref \<Rightarrow> (error + ref) \<times> store" where
  "multiply_at s self other_matrix =
     (if col_count (s ! self) \<noteq> row_count (s ! other_matrix)
      then (Inl MultiplicationDimensions, s)
      else
        (case new_SparseMatrix s (row_count (s ! self)) (col_count (s ! other_matrix)) of
           (result_matrix, s1) \<Rightarrow>
             (case for_items self (mul_body result_matrix other_matrix) s1 of
                (Some e, s2) \<Rightarrow> (Inl e, s2)
              | (None, s2) \<Rightarrow> (Inr result_matrix, s2))))"

text \<open>
  What a call returned and left behind, against the store \<open>s\<close> it started from:
  a failing call leaves the store as it was; a successful one returns the
  reference of one new object and leaves every object of \<open>s\<close> as it was.
\<close>

definition writes_only_fresh :: "store \<Rightarrow> (error + ref) \<times> store \<Rightarrow> bool" where
  "writes_only_fresh s out =
     (case out of
        (Inl e, s') \<Rightarrow> s' = s
      | (Inr p, s') \<Rightarrow> p = length s \<and> length s' = Suc (length s) \<and> take (length s) s' = s)"

definition operands_unchanged :: "store \<Rightarrow> ref \<Rightarrow> ref \<Rightarrow> (error + ref) \<times> store \<Rightarrow> bool" where
  "operands_unchanged s a b out = (snd out ! a = s ! a \<and> snd out ! b = s ! b)"

section \<open>Representation invariants\<close>

text \<open>
  A Python dict holds each key once. The association list has this property
  whenever it is built by \<^const>\<open>dict_set\<close> from the empty list, which is the only way
  the class builds one.
\<close>

definition dict_ok :: "SparseMatrix \<Rightarrow> bool" where
  "dict_ok m = distinct (map fst (data m))"

text \<open>Every stored key lies below the dimensions.\<close>

definition keys_below :: "SparseMatrix \<Rightarrow> bool" where
  "keys_below m = list_all (\<lambda>((r, c), v). r < row_count m \<and> c < col_count m) (data m)"

text \<open>Every stored key is a pair of non-negative indices.\<close>

definition keys_nonneg :: "SparseMatrix \<Rightarrow> bool" where
  "keys_nonneg m = list_all (\<lambda>((r, c), v). 0 \<le> r \<and> 0 \<le> c) (data m)"

definition well_formed :: "SparseMatrix \<Rightarrow> bool" where
  "well_formed m = (dict_ok m \<and> keys_below m \<and> keys_nonneg m)"

text \<open>What every matrix built by \<^verbatim>\<open>set_element\<close> from an empty one satisfies.\<close>

definition sound :: "SparseMatrix \<Rightarrow> bool" where
  "sound m = (dict_ok m \<and> keys_below m)"

text \<open>Steps whose key is non-negative and below the dimensions keep the shape.\<close>

definition shaped :: "int \<Rightarrow> int \<Rightarrow> SparseMatrix \<Rightarrow> bool" where
  "shaped R C m = (row_count m = R \<and> col_count m = C \<and> keys_nonneg m)"

text \<open>A sequence of \<^verbatim>\<open>set_element\<close> calls on one object, in order.\<close>

definition set_all :: "(int \<times> int \<times> int) list \<Rightarrow> SparseMatrix \<Rightarrow> SparseMatrix" where
  "set_all calls m = fold (\<lambda>(r, c, v) m. set_element m r c v) calls m"


text \<open>What the loader builds: a matrix of the data model with non-negative dimensions.\<close>

definition loaded_ok :: "SparseMatrix \<Rightarrow> bool" where
  "loaded_ok m = (well_formed m \<and> 0 \<le> row_count m \<and> 0 \<le> col_count m)"

section \<open>Dictionary facts\<close>

lemma map_of_dict_set: "map_of (dict_set d k v) = (map_of d)(k \<mapsto> v)"
  by (induction d) (auto simp: fun_eq_iff)

lemma keys_dict_set: "fst ` set (dict_set d k v) = insert k (fst ` set d)"
  by (induction d) auto

lemma distinct_dict_set: "distinct (map fst d) \<Longrightarrow> distinct (map fst (dict_set d k v))"
proof (induction d)
  case Nil
  then show ?case by simp
next
  case (Cons p ps)
  have "set (map fst (dict_set ps k v)) = insert k (fst ` set ps)"
    using keys_dict_set [of ps k v] by simp
  with Cons show ?case by auto
qed


lemma get_set_element: "get_element (set_element m r c v) i j = (if (i, j) = (r, c) then v else get_element m i j)"
  by (simp add: get_element_def set_element_def dict_get_def Let_def map_of_dict_set)

section \<open>Accessors and the loops of the arithmetic\<close>

lemma row_count_set_element: "row_count (set_element m r c v) = max (row_count m) (r + 1)"
  by (simp add: set_element_def Let_def max_def)

lemma col_count_set_element: "col_count (set_element m r c v) = max (col_count m) (c + 1)"
  by (simp add: set_element_def Let_def max_def)

lemma data_set_element: "data (set_element m r c v) = dict_set (data m) (r, c) v"
  by (simp add: set_element_def Let_def)

lemma dict_ok_set_element: "dict_ok m \<Longrightarrow> dict_ok (set_element m r c v)"
  by (simp add: dict_ok_def data_set_element distinct_dict_set)

lemma set_dict_set: "set (dict_set d k v) \<subseteq> insert (k, v) (set d)"
  by (induction d) auto

lemma keys_below_iff:
  "keys_below m \<longleftrightarrow> (\<forall>r c v. ((r, c), v) \<in> set (data m) \<longrightarrow> r < row_count m \<and> c < col_count m)"
  by (auto simp: keys_below_def list_all_iff)

lemma keys_nonneg_iff:
  "keys_nonneg m \<longleftrightarrow> (\<forall>r c v. ((r, c), v) \<in> set (data m) \<longrightarrow> 0 \<le> r \<and> 0 \<le> c)"
  by (auto simp: keys_nonneg_def list_all_iff)

lemma keys_below_set_element: "keys_below m \<Longrightarrow> keys_below (set_element m r c v)"
  using set_dict_set [of "data m" "(r, c)" v]
  by (fastforce simp: keys_below_iff data_set_element row_count_set_element col_count_set_element)

lemma keys_nonneg_set_element: "keys_nonneg m \<Longrightarrow> 0 \<le> r \<Longrightarrow> 0 \<le> c \<Longrightarrow> keys_nonneg (set_element m r c v)"
  using set_dict_set [of "data m" "(r, c)" v]
  by (fastforce simp: keys_nonneg_iff data_set_element)

lemma fold_invariant:
  assumes "\<And>e m. e \<in> set es \<Longrightarrow> P m \<Longrightarrow> P (f e m)" and "P m"
  shows "P (fold f es m)"
  using assms by (induction es arbitrary: m) auto

lemma get_copy_step: "get_element (copy_step ((r, c), v) m) i j = (if (i, j) = (r, c) then v else get_element m i j)"
  by (simp add: copy_step_def get_set_element)

lemma get_add_step: "get_element (add_step ((r, c), v) m) i j = get_element m i j + (if (i, j) = (r, c) then v else 0)"
  by (simp add: add_step_def get_set_element Let_def)

lemma get_sub_step: "get_element (sub_step ((r, c), v) m) i j = get_element m i j - (if (i, j) = (r, c) then v else 0)"
  by (simp add: sub_step_def get_set_element Let_def)

lemma get_fold_copy:
  "distinct (map fst es) \<Longrightarrow>
   get_element (fold copy_step es m) i j = (case map_of es (i, j) of None \<Rightarrow> get_element m i j | Some v \<Rightarrow> v)"
proof (induction es arbitrary: m)
  case Nil
  then show ?case by simp
next
  case (Cons e es)
  obtain r c v where e: "e = ((r, c), v)" by (cases e) auto
  have fresh: "map_of es (r, c) = None"
    using Cons.prems e by (simp add: map_of_eq_None_iff)
  show ?case
    using Cons.prems e fresh by (simp add: Cons.IH get_copy_step split: option.splits)
qed

lemma get_fold_add:
  "distinct (map fst es) \<Longrightarrow>
   get_element (fold add_step es m) i j = get_element m i j + dict_get es (i, j) 0"
proof (induction es arbitrary: m)
  case Nil
  then show ?case by (simp add: dict_get_def)
next
  case (Cons e es)
  obtain r c v where e: "e = ((r, c), v)" by (cases e) auto
  have fresh: "map_of es (r, c) = None"
    using Cons.prems e by (simp add: map_of_eq_None_iff)
  show ?case
    using Cons.prems e fresh by (simp add: Cons.IH get_add_step dict_get_def)
qed

lemma get_fold_sub:
  "distinct (map fst es) \<Longrightarrow>
   get_element (fold sub_step es m) i j = get_element m i j - dict_get es (i, j) 0"
proof (induction es arbitrary: m)
  case Nil
  then show ?case by (simp add: dict_get_def)
next
  case (Cons e es)
  obtain r c v where e: "e = ((r, c), v)" by (cases e) auto
  have fresh: "map_of es (r, c) = None"
    using Cons.prems e by (simp add: map_of_eq_None_iff)
  show ?case
    using Cons.prems e fresh by (simp add: Cons.IH get_sub_step dict_get_def)
qed

lemma get_init: "get_element (SparseMatrix_init R C) i j = 0"
  by (simp add: get_element_def SparseMatrix_init_def dict_get_def)

lemma add_get:
  assumes "dict_ok A" "dict_ok B" "add A B = Inr R"
  shows "get_element R i j = get_element A i j + get_element B i j"
proof -
  have R: "R = fold add_step (data B) (fold copy_step (data A) (SparseMatrix_init (row_count A) (col_count A)))"
    using assms(3) by (simp add: add_def Let_def split: if_splits)
  show ?thesis
    using assms(1,2) unfolding R dict_ok_def
    by (simp add: get_fold_add get_fold_copy) (simp add: get_element_def dict_get_def SparseMatrix_init_def split: option.splits)
qed

lemma subtract_get:
  assumes "dict_ok A" "dict_ok B" "subtract A B = Inr R"
  shows "get_element R i j = get_element A i j - get_element B i j"
proof -
  have R: "R = fold sub_step (data B) (fold copy_step (data A) (SparseMatrix_init (row_count A) (col_count A)))"
    using assms(3) by (simp add: subtract_def Let_def split: if_splits)
  show ?thesis
    using assms(1,2) unfolding R dict_ok_def
    by (simp add: get_fold_sub get_fold_copy) (simp add: get_element_def dict_get_def SparseMatrix_init_def split: option.splits)
qed

lemma dict_set_mem: "(k, v) \<in> set (dict_set d k v)"
  by (induction d) auto

lemma get_set_all_other:
  "(r, c) \<notin> set (map (\<lambda>(r, c, v). (r, c)) calls) \<Longrightarrow> get_element (set_all calls m) r c = get_element m r c"
  unfolding set_all_def
  by (induction calls arbitrary: m) (auto simp: get_set_element)

section \<open>The loops of multiply\<close>

lemma set_py_range: "set (py_range n) = {0..<n}"
  by (auto simp: py_range_def)










lemma dims_mul_inner:
  "row < row_count m \<Longrightarrow> k < col_count m \<Longrightarrow>
   row_count (mul_inner B row col val k m) = row_count m \<and> col_count (mul_inner B row col val k m) = col_count m"
  by (simp add: mul_inner_def Let_def row_count_set_element col_count_set_element)

lemma dims_mul_step:
  assumes "row < row_count m" and "col_count m = col_count B"
  shows "row_count (mul_step B ((row, col), val) m) = row_count m \<and> col_count (mul_step B ((row, col), val) m) = col_count m"
proof -
  let ?P = "\<lambda>m' :: SparseMatrix. row_count m' = row_count m \<and> col_count m' = col_count m"
  have "?P (fold (mul_inner B row col val) (py_range (col_count B)) m)"
  proof (rule fold_invariant [where P = ?P])
    fix k m' assume "k \<in> set (py_range (col_count B))" and "?P m'"
    then show "?P (mul_inner B row col val k m')"
      using assms dims_mul_inner [of row m' k B col val] by (simp add: set_py_range)
  qed simp
  then show ?thesis by (simp add: mul_step_def)
qed

lemma dims_fold_mul_step:
  assumes "\<And>r c v. ((r, c), v) \<in> set es \<Longrightarrow> r < row_count m" and "col_count m = col_count B"
  shows "row_count (fold (mul_step B) es m) = row_count m \<and> col_count (fold (mul_step B) es m) = col_count m"
proof -
  let ?P = "\<lambda>m' :: SparseMatrix. row_count m' = row_count m \<and> col_count m' = col_count m"
  have "?P (fold (mul_step B) es m)"
  proof (rule fold_invariant [where P = ?P])
    fix e m' assume e: "e \<in> set es" and P: "?P m'"
    obtain r c v where ev: "e = ((r, c), v)" by (cases e) auto
    show "?P (mul_step B e m')"
      using assms e P dims_mul_step [of r m' B c v] unfolding ev by auto
  qed simp
  then show ?thesis .
qed



section \<open>Invariants of the results\<close>

lemma keys_nonneg_init: "keys_nonneg (SparseMatrix_init R C)"
  by (simp add: keys_nonneg_def SparseMatrix_init_def)

lemma keys_below_init: "keys_below (SparseMatrix_init R C)"
  by (simp add: keys_below_def SparseMatrix_init_def)

lemma dict_ok_init: "dict_ok (SparseMatrix_init R C)"
  by (simp add: dict_ok_def SparseMatrix_init_def)

lemma sound_init: "sound (SparseMatrix_init R C)"
  by (simp add: sound_def dict_ok_init keys_below_init)

lemma sound_set_element: "sound m \<Longrightarrow> sound (set_element m r c v)"
  by (simp add: sound_def dict_ok_set_element keys_below_set_element)

lemma sound_copy_step: "sound m \<Longrightarrow> sound (copy_step e m)"
  by (cases e) (auto simp: copy_step_def sound_set_element)

lemma sound_add_step: "sound m \<Longrightarrow> sound (add_step e m)"
  by (cases e) (auto simp: add_step_def Let_def sound_set_element)

lemma sound_sub_step: "sound m \<Longrightarrow> sound (sub_step e m)"
  by (cases e) (auto simp: sub_step_def Let_def sound_set_element)

lemma sound_mul_inner: "sound m \<Longrightarrow> sound (mul_inner B row col val k m)"
  by (simp add: mul_inner_def Let_def sound_set_element)

lemma sound_mul_step: "sound m \<Longrightarrow> sound (mul_step B e m)"
  by (cases e) (auto simp: mul_step_def intro: fold_invariant sound_mul_inner)

lemma sound_add: "add A B = Inr R \<Longrightarrow> sound R"
  by (auto simp: add_def Let_def split: if_splits
      intro!: fold_invariant [where P = sound] sound_add_step sound_copy_step sound_init)

lemma sound_subtract: "subtract A B = Inr R \<Longrightarrow> sound R"
  by (auto simp: subtract_def Let_def split: if_splits
      intro!: fold_invariant [where P = sound] sound_sub_step sound_copy_step sound_init)

lemma sound_multiply: "multiply A B = Inr R \<Longrightarrow> sound R"
  by (auto simp: multiply_def Let_def split: if_splits
      intro!: fold_invariant [where P = sound] sound_mul_step sound_init)

lemma shaped_set_element:
  "shaped R C m \<Longrightarrow> 0 \<le> r \<Longrightarrow> r < R \<Longrightarrow> 0 \<le> c \<Longrightarrow> c < C \<Longrightarrow> shaped R C (set_element m r c v)"
  by (simp add: shaped_def row_count_set_element col_count_set_element keys_nonneg_set_element)

lemma shaped_init: "shaped R C (SparseMatrix_init R C)"
  by (simp add: shaped_def keys_nonneg_init) (simp add: SparseMatrix_init_def)

lemma entry_bounds:
  "well_formed A \<Longrightarrow> ((r, c), v) \<in> set (data A) \<Longrightarrow> 0 \<le> r \<and> r < row_count A \<and> 0 \<le> c \<and> c < col_count A"
  by (fastforce simp: well_formed_def keys_below_iff keys_nonneg_iff)

lemma shaped_fold_copy:
  assumes "well_formed A" and "shaped (row_count A) (col_count A) m"
  shows "shaped (row_count A) (col_count A) (fold copy_step (data A) m)"
proof (rule fold_invariant [where P = "shaped (row_count A) (col_count A)"])
  fix e m' assume e: "e \<in> set (data A)" and m': "shaped (row_count A) (col_count A) m'"
  obtain r c v where ev: "e = ((r, c), v)" by (cases e) auto
  show "shaped (row_count A) (col_count A) (copy_step e m')"
    using entry_bounds [OF assms(1), of r c v] e m' unfolding ev
    by (simp add: copy_step_def shaped_set_element)
qed (rule assms(2))


lemma shaped_fold_sub:
  assumes "well_formed B" and "shaped (row_count B) (col_count B) m"
  shows "shaped (row_count B) (col_count B) (fold sub_step (data B) m)"
proof (rule fold_invariant [where P = "shaped (row_count B) (col_count B)"])
  fix e m' assume e: "e \<in> set (data B)" and m': "shaped (row_count B) (col_count B) m'"
  obtain r c v where ev: "e = ((r, c), v)" by (cases e) auto
  show "shaped (row_count B) (col_count B) (sub_step e m')"
    using entry_bounds [OF assms(1), of r c v] e m' unfolding ev
    by (simp add: sub_step_def Let_def shaped_set_element)
qed (rule assms(2))



lemma well_formed_iff: "well_formed m \<longleftrightarrow> sound m \<and> keys_nonneg m"
  by (auto simp: well_formed_def sound_def)


lemma subtract_well_formed:
  assumes "well_formed A" and "well_formed B" and "subtract A B = Inr R"
  shows "well_formed R \<and> row_count R = row_count A \<and> col_count R = col_count A"
proof -
  have eq: "row_count A = row_count B" "col_count A = col_count B"
    using assms(3) by (auto simp: subtract_def split: if_splits)
  have R: "R = fold sub_step (data B) (fold copy_step (data A) (SparseMatrix_init (row_count A) (col_count A)))"
    using assms(3) by (simp add: subtract_def Let_def split: if_splits)
  have "shaped (row_count A) (col_count A) (fold copy_step (data A) (SparseMatrix_init (row_count A) (col_count A)))"
    using assms(1) by (intro shaped_fold_copy shaped_init)
  then have "shaped (row_count A) (col_count A) R"
    unfolding R using shaped_fold_sub [OF assms(2)] eq by simp
  then show ?thesis
    using sound_subtract [OF assms(3)] by (simp add: well_formed_iff shaped_def)
qed



section \<open>The store-level methods compute the value-level ones\<close>

lemma items_loop_frame:
  assumes "src < length s" and "dst < length s" and "src \<noteq> dst"
    and body: "\<And>e m. body e (s[dst := m]) = s[dst := f e m]"
  shows "i \<le> length (data (s ! src)) \<Longrightarrow>
         items_loop body src (length (data (s ! src))) i (s[dst := m]) =
           (None, s[dst := fold f (drop i (data (s ! src))) m])"
proof (induction "length (data (s ! src)) - i" arbitrary: i m)
  case 0
  then have "i = length (data (s ! src))" by simp
  then show ?case
    using assms(1-3) by (subst items_loop.simps) simp
next
  case (Suc k)
  then have lt: "i < length (data (s ! src))" by simp
  have src: "s[dst := m] ! src = s ! src" for m
    using assms(3) by simp
  have "items_loop body src (length (data (s ! src))) i (s[dst := m]) =
        items_loop body src (length (data (s ! src))) (i + 1) (s[dst := f (data (s ! src) ! i) m])"
    using lt by (subst items_loop.simps) (simp add: src body)
  also have "\<dots> = (None, s[dst := fold f (drop (i + 1) (data (s ! src))) (f (data (s ! src) ! i) m)])"
    using Suc lt by (intro Suc.hyps(1)) auto
  also have "fold f (drop (i + 1) (data (s ! src))) (f (data (s ! src) ! i) m) = fold f (drop i (data (s ! src))) m"
    using lt by (simp add: Cons_nth_drop_Suc [symmetric])
  finally show ?case .
qed

lemma for_items_frame:
  assumes "src < length s" and "dst < length s" and "src \<noteq> dst"
    and body: "\<And>e m. body e (s[dst := m]) = s[dst := f e m]"
  shows "for_items src body (s[dst := m]) = (None, s[dst := fold f (data (s ! src)) m])"
proof -
  have "items_loop body src (length (data (s ! src))) 0 (s[dst := m]) =
           (None, s[dst := fold f (drop 0 (data (s ! src))) m])"
    using assms by (intro items_loop_frame) auto
  then show ?thesis using assms(3) by (simp add: for_items_def)
qed

lemma copy_body_frame: "dst < length s \<Longrightarrow> copy_body dst e (s[dst := m]) = s[dst := copy_step e m]"
  by (cases e) (auto simp: copy_body_def copy_step_def set_element_at_def)

lemma add_body_frame: "dst < length s \<Longrightarrow> add_body dst e (s[dst := m]) = s[dst := add_step e m]"
  by (cases e) (auto simp: add_body_def add_step_def set_element_at_def get_element_at_def Let_def)

lemma sub_body_frame: "dst < length s \<Longrightarrow> sub_body dst e (s[dst := m]) = s[dst := sub_step e m]"
  by (cases e) (auto simp: sub_body_def sub_step_def set_element_at_def get_element_at_def Let_def)

lemma mul_inner_body_frame:
  "dst < length s \<Longrightarrow> other \<noteq> dst \<Longrightarrow>
   mul_inner_body dst other row col val k (s[dst := m]) = s[dst := mul_inner (s ! other) row col val k m]"
  by (simp add: mul_inner_body_def mul_inner_def set_element_at_def get_element_at_def Let_def)

lemma fold_mul_inner_body_frame:
  "dst < length s \<Longrightarrow> other \<noteq> dst \<Longrightarrow>
   fold (mul_inner_body dst other row col val) ks (s[dst := m]) =
     s[dst := fold (mul_inner (s ! other) row col val) ks m]"
  by (induction ks arbitrary: m) (simp_all add: mul_inner_body_frame)

lemma mul_body_frame:
  "dst < length s \<Longrightarrow> other \<noteq> dst \<Longrightarrow>
   mul_body dst other e (s[dst := m]) = s[dst := mul_step (s ! other) e m]"
  by (cases e) (auto simp: mul_body_def mul_step_def fold_mul_inner_body_frame)

lemma alloc_as_update:
  "s @ [m] = (s @ [m])[length s := m]"
  by simp

lemma add_at_refines:
  assumes "a < length s" and "b < length s"
  shows "add_at s a b =
     (case add (s ! a) (s ! b) of Inl e \<Rightarrow> (Inl e, s) | Inr R \<Rightarrow> (Inr (length s), s @ [R]))"
proof (cases "row_count (s ! a) \<noteq> row_count (s ! b) \<or> col_count (s ! a) \<noteq> col_count (s ! b)")
  case True
  then show ?thesis by (simp add: add_at_def add_def)
next
  case False
  let ?m0 = "SparseMatrix_init (row_count (s ! a)) (col_count (s ! a))"
  let ?s1 = "s @ [?m0]"
  let ?d = "length s"
  have va: "a < length ?s1" "a \<noteq> ?d" and vb: "b < length ?s1" "b \<noteq> ?d" and vd: "?d < length ?s1"
    using assms by simp_all
  have sa: "?s1 ! a = s ! a" and sb: "?s1 ! b = s ! b"
    using assms by (simp_all add: nth_append)
  have l1: "for_items a (copy_body ?d) (?s1[?d := ?m0]) = (None, ?s1[?d := fold copy_step (data (?s1 ! a)) ?m0])"
    using va vd by (intro for_items_frame copy_body_frame) auto
  have l2: "for_items b (add_body ?d) (?s1[?d := m]) = (None, ?s1[?d := fold add_step (data (?s1 ! b)) m])" for m
    using vb vd by (intro for_items_frame add_body_frame) auto
  have e1: "?s1[?d := ?m0] = ?s1" by simp
  have upd: "?s1[?d := m] = s @ [m]" for m by simp
  show ?thesis
    using False l1 l2 unfolding e1 sa sb
    by (simp add: add_at_def add_def new_SparseMatrix_def Let_def upd)
qed

lemma subtract_at_refines:
  assumes "a < length s" and "b < length s"
  shows "subtract_at s a b =
     (case subtract (s ! a) (s ! b) of Inl e \<Rightarrow> (Inl e, s) | Inr R \<Rightarrow> (Inr (length s), s @ [R]))"
proof (cases "row_count (s ! a) \<noteq> row_count (s ! b) \<or> col_count (s ! a) \<noteq> col_count (s ! b)")
  case True
  then show ?thesis by (simp add: subtract_at_def subtract_def)
next
  case False
  let ?m0 = "SparseMatrix_init (row_count (s ! a)) (col_count (s ! a))"
  let ?s1 = "s @ [?m0]"
  let ?d = "length s"
  have va: "a < length ?s1" "a \<noteq> ?d" and vb: "b < length ?s1" "b \<noteq> ?d" and vd: "?d < length ?s1"
    using assms by simp_all
  have sa: "?s1 ! a = s ! a" and sb: "?s1 ! b = s ! b"
    using assms by (simp_all add: nth_append)
  have l1: "for_items a (copy_body ?d) (?s1[?d := ?m0]) = (None, ?s1[?d := fold copy_step (data (?s1 ! a)) ?m0])"
    using va vd by (intro for_items_frame copy_body_frame) auto
  have l2: "for_items b (sub_body ?d) (?s1[?d := m]) = (None, ?s1[?d := fold sub_step (data (?s1 ! b)) m])" for m
    using vb vd by (intro for_items_frame sub_body_frame) auto
  have e1: "?s1[?d := ?m0] = ?s1" by simp
  have upd: "?s1[?d := m] = s @ [m]" for m by simp
  show ?thesis
    using False l1 l2 unfolding e1 sa sb
    by (simp add: subtract_at_def subtract_def new_SparseMatrix_def Let_def upd)
qed

lemma multiply_at_refines:
  assumes "a < length s" and "b < length s"
  shows "multiply_at s a b =
     (case multiply (s ! a) (s ! b) of Inl e \<Rightarrow> (Inl e, s) | Inr R \<Rightarrow> (Inr (length s), s @ [R]))"
proof (cases "col_count (s ! a) \<noteq> row_count (s ! b)")
  case True
  then show ?thesis by (simp add: multiply_at_def multiply_def)
next
  case False
  let ?m0 = "SparseMatrix_init (row_count (s ! a)) (col_count (s ! b))"
  let ?s1 = "s @ [?m0]"
  let ?d = "length s"
  have va: "a < length ?s1" "a \<noteq> ?d" and vb: "b < length ?s1" "b \<noteq> ?d" and vd: "?d < length ?s1"
    using assms by simp_all
  have sa: "?s1 ! a = s ! a" and sb: "?s1 ! b = s ! b"
    using assms by (simp_all add: nth_append)
  have l1: "for_items a (mul_body ?d b) (?s1[?d := ?m0]) =
              (None, ?s1[?d := fold (mul_step (?s1 ! b)) (data (?s1 ! a)) ?m0])"
    using va vb vd by (intro for_items_frame mul_body_frame) auto
  have e1: "?s1[?d := ?m0] = ?s1" by simp
  have upd: "?s1[?d := m] = s @ [m]" for m by simp
  show ?thesis
    using False l1 unfolding e1 sa sb
    by (simp add: multiply_at_def multiply_def new_SparseMatrix_def Let_def upd)
qed

lemma refines_pure:
  assumes "a < length s" and "b < length s"
    and "out = (case r of Inl e \<Rightarrow> (Inl e, s) | Inr R \<Rightarrow> (Inr (length s), s @ [R]))"
  shows "writes_only_fresh s out \<and> operands_unchanged s a b out"
  using assms by (cases r) (simp_all add: writes_only_fresh_def operands_unchanged_def nth_append)

lemma add_fails_iff: "isl (add A B) \<longleftrightarrow> row_count A \<noteq> row_count B \<or> col_count A \<noteq> col_count B"
  by (simp add: add_def Let_def)

lemma subtract_fails_iff: "isl (subtract A B) \<longleftrightarrow> row_count A \<noteq> row_count B \<or> col_count A \<noteq> col_count B"
  by (simp add: subtract_def Let_def)

lemma multiply_fails_iff: "isl (multiply A B) \<longleftrightarrow> col_count A \<noteq> row_count B"
  by (simp add: multiply_def Let_def)

lemma add_fails: "isl (add A B) \<Longrightarrow> add A B = Inl AdditionDimensions"
  by (simp add: add_def Let_def split: if_splits)

lemma subtract_fails: "isl (subtract A B) \<Longrightarrow> subtract A B = Inl SubtractionDimensions"
  by (simp add: subtract_def Let_def split: if_splits)

lemma multiply_fails: "isl (multiply A B) \<Longrightarrow> multiply A B = Inl MultiplicationDimensions"
  by (simp add: multiply_def Let_def split: if_splits)

lemma add_at_fails:
  assumes "a < length s" and "b < length s"
  shows "(isl (fst (add_at s a b)) \<longleftrightarrow> isl (add (s ! a) (s ! b))) \<and>
         (isl (add (s ! a) (s ! b)) \<longrightarrow> add_at s a b = (Inl AdditionDimensions, s))"
  using add_fails [of "s ! a" "s ! b"] unfolding add_at_refines [OF assms]
  by (cases "add (s ! a) (s ! b)") simp_all

lemma subtract_at_fails:
  assumes "a < length s" and "b < length s"
  shows "(isl (fst (subtract_at s a b)) \<longleftrightarrow> isl (subtract (s ! a) (s ! b))) \<and>
         (isl (subtract (s ! a) (s ! b)) \<longrightarrow> subtract_at s a b = (Inl SubtractionDimensions, s))"
  using subtract_fails [of "s ! a" "s ! b"] unfolding subtract_at_refines [OF assms]
  by (cases "subtract (s ! a) (s ! b)") simp_all

lemma multiply_at_fails:
  assumes "a < length s" and "b < length s"
  shows "(isl (fst (multiply_at s a b)) \<longleftrightarrow> isl (multiply (s ! a) (s ! b))) \<and>
         (isl (multiply (s ! a) (s ! b)) \<longrightarrow> multiply_at s a b = (Inl MultiplicationDimensions, s))"
  using multiply_fails [of "s ! a" "s ! b"] unfolding multiply_at_refines [OF assms]
  by (cases "multiply (s ! a) (s ! b)") simp_all

section \<open>Characters, numerals and the matcher\<close>


lemma lits_not_digit [simp]:
  "\<not> isdigit (CHR ''('')" "\<not> isdigit (CHR '')'')" "\<not> isdigit (CHR '','')" "\<not> isdigit (CHR ''-'')"
  "\<not> isdigit (CHR '' '')" "\<not> isdigit LF" "\<not> isdigit (CHR ''='')"
  by (simp_all add: isdigit_def LF_def)

lemma lits_not_space [simp]:
  "\<not> isspace (CHR ''('')" "\<not> isspace (CHR '')'')" "\<not> isspace (CHR '','')" "\<not> isspace (CHR ''-'')"
  "\<not> isspace (CHR ''r'')" "\<not> isspace (CHR ''c'')"
  by (simp_all add: isspace_def)

lemma space_is_space [simp]: "isspace (CHR '' '')" "isspace LF"
  by (simp_all add: isspace_def LF_def)





lemma int_of_digits_snoc: "int_of_digits (ds @ [c]) = 10 * int_of_digits ds + digit_val c"
  by (simp add: int_of_digits_def)


lemma int_of_digits_nonneg: "list_all isdigit ds \<Longrightarrow> 0 \<le> int_of_digits ds"
proof (induction ds rule: rev_induct)
  case Nil
  then show ?case by (simp add: int_of_digits_def)
next
  case (snoc c ds)
  then have "0 \<le> digit_val c" by (simp add: digit_val_def isdigit_def)
  with snoc show ?case by (simp add: int_of_digits_snoc)
qed


lemma hd_digits1: "digits1 g \<Longrightarrow> isdigit (hd g)"
  by (cases g) (auto simp: digits1_def)

lemma py_int_digits: "digits1 g \<Longrightarrow> py_int g = int_of_digits g"
  using hd_digits1 [of g] by (cases g) (auto simp: py_int_def match_literal_def digits1_def)

lemma py_int_nonneg: "digits1 g \<Longrightarrow> 0 \<le> py_int g"
  by (simp add: py_int_digits int_of_digits_nonneg digits1_def)





lemma match_literal_Some: "match_literal lit s = Some r \<longleftrightarrow> s = lit @ r"
  by (auto simp: match_literal_def split: if_splits) (metis append_take_drop_id)

lemma match_digits_append:
  "digits1 g \<Longrightarrow> (r = [] \<or> \<not> isdigit (hd r)) \<Longrightarrow> match_digits (g @ r) = Some (g, r)"
proof -
  assume g: "digits1 g" and r: "r = [] \<or> \<not> isdigit (hd r)"
  have all: "\<forall>x\<in>set g. isdigit x" using g by (simp add: digits1_def list_all_iff)
  have t: "takeWhile isdigit (g @ r) = g"
    using all r by (cases r) (simp_all add: takeWhile_append2)
  have d: "dropWhile isdigit (g @ r) = r"
    using all r by (cases r) (simp_all add: dropWhile_append2)
  show ?thesis using g by (simp add: match_digits_def t d digits1_def)
qed

lemma match_digits_Some:
  "match_digits s = Some (g, r) \<longleftrightarrow> s = g @ r \<and> digits1 g \<and> (r = [] \<or> \<not> isdigit (hd r))"
proof
  assume "match_digits s = Some (g, r)"
  then have g: "g = takeWhile isdigit s" and r: "r = dropWhile isdigit s" and ne: "g \<noteq> []"
    by (auto simp: match_digits_def Let_def split: if_splits)
  have "list_all isdigit g" unfolding g list_all_iff by (auto dest: set_takeWhileD)
  moreover have "r = [] \<or> \<not> isdigit (hd r)" unfolding r using hd_dropWhile [of isdigit s] by blast
  ultimately show "s = g @ r \<and> digits1 g \<and> (r = [] \<or> \<not> isdigit (hd r))"
    using g r ne by (simp add: digits1_def)
next
  assume "s = g @ r \<and> digits1 g \<and> (r = [] \<or> \<not> isdigit (hd r))"
  then show "match_digits s = Some (g, r)" by (simp add: match_digits_append)
qed


lemma match_spaces_split:
  "\<exists>w. s = w @ match_spaces s \<and> spaces w \<and> (match_spaces s = [] \<or> \<not> isspace (hd (match_spaces s)))"
proof (intro exI conjI)
  show "s = takeWhile isspace s @ match_spaces s" by (simp add: match_spaces_def)
  show "spaces (takeWhile isspace s)" unfolding spaces_def list_all_iff by (auto dest: set_takeWhileD)
  show "match_spaces s = [] \<or> \<not> isspace (hd (match_spaces s))"
    unfolding match_spaces_def using hd_dropWhile [of isspace s] by blast
qed

lemma match_int_append:
  "signed_digits g \<Longrightarrow> (r = [] \<or> \<not> isdigit (hd r)) \<Longrightarrow> match_int (g @ r) = Some (g, r)"
proof -
  assume g: "signed_digits g" and r: "r = [] \<or> \<not> isdigit (hd r)"
  show ?thesis
  proof (cases "digits1 g")
    case True
    then have "match_literal ''-'' (g @ r) = None"
      using hd_digits1 [OF True] by (cases g) (auto simp: match_literal_def digits1_def)
    then show ?thesis using True r by (simp add: match_int_def match_digits_append)
  next
    case False
    then obtain d where d: "g = CHR ''-'' # d" "digits1 d"
      using g by (cases g) (auto simp: signed_digits_def)
    have "match_literal ''-'' (g @ r) = Some (d @ r)"
      using d by (simp add: match_literal_def)
    then show ?thesis using d r by (simp add: match_int_def match_digits_append)
  qed
qed

lemma match_int_Some:
  "match_int s = Some (g, r) \<longleftrightarrow> s = g @ r \<and> signed_digits g \<and> (r = [] \<or> \<not> isdigit (hd r))"
proof
  assume m: "match_int s = Some (g, r)"
  show "s = g @ r \<and> signed_digits g \<and> (r = [] \<or> \<not> isdigit (hd r))"
  proof (cases "match_literal ''-'' s")
    case None
    then have "match_digits s = Some (g, r)" using m by (simp add: match_int_def)
    then show ?thesis by (simp add: match_digits_Some signed_digits_def)
  next
    case (Some s')
    then have s: "s = ''-'' @ s'" by (simp add: match_literal_Some)
    from m Some obtain d where d: "match_digits s' = Some (d, r)" "g = CHR ''-'' # d"
      by (auto simp: match_int_def split: option.splits)
    then show ?thesis using s by (simp add: match_digits_Some signed_digits_def)
  qed
next
  assume "s = g @ r \<and> signed_digits g \<and> (r = [] \<or> \<not> isdigit (hd r))"
  then show "match_int s = Some (g, r)" by (simp add: match_int_append)
qed





lemma match_entry_parts:
  assumes "match_entry line = Some (g1, g2, g3)"
  shows "\<exists>w1 w2 rest. line = ''('' @ g1 @ '','' @ w1 @ g2 @ '','' @ w2 @ g3 @ '')'' @ rest \<and>
           digits1 g1 \<and> spaces w1 \<and> digits1 g2 \<and> spaces w2 \<and> signed_digits g3"
proof -
  from assms obtain s1 s2 s3 s4 s5 s6 s7 where
    1: "match_literal ''('' line = Some s1" and
    2: "match_digits s1 = Some (g1, s2)" and
    3: "match_literal '','' s2 = Some s3" and
    4: "match_digits (match_spaces s3) = Some (g2, s4)" and
    5: "match_literal '','' s4 = Some s5" and
    6: "match_int (match_spaces s5) = Some (g3, s6)" and
    7: "match_literal '')'' s6 = Some s7"
    by (auto simp: match_entry_def split: option.splits)
  obtain w1 where w1: "s3 = w1 @ match_spaces s3" "spaces w1" using match_spaces_split [of s3] by blast
  obtain w2 where w2: "s5 = w2 @ match_spaces s5" "spaces w2" using match_spaces_split [of s5] by blast
  have "line = ''('' @ s1" using 1 by (simp add: match_literal_Some)
  moreover have "s1 = g1 @ s2" "digits1 g1" using 2 by (simp_all add: match_digits_Some)
  moreover have "s2 = '','' @ s3" using 3 by (simp add: match_literal_Some)
  moreover have "match_spaces s3 = g2 @ s4" "digits1 g2" using 4 by (simp_all add: match_digits_Some)
  moreover have "s4 = '','' @ s5" using 5 by (simp add: match_literal_Some)
  moreover have "match_spaces s5 = g3 @ s6" "signed_digits g3" using 6 by (simp_all add: match_int_Some)
  moreover have "s6 = '')'' @ s7" using 7 by (simp add: match_literal_Some)
  ultimately have "line = ''('' @ g1 @ '','' @ w1 @ g2 @ '','' @ w2 @ g3 @ '')'' @ s7 \<and>
           digits1 g1 \<and> spaces w1 \<and> digits1 g2 \<and> spaces w2 \<and> signed_digits g3"
    using w1 w2 by (metis append_assoc)
  then show ?thesis by blast
qed


text \<open>The loop over the entry lines.\<close>

lemma parse_entries_skip:
  "strip l = [] \<Longrightarrow> parse_entries m i (l # ls) = parse_entries m (i + 1) ls"
  by simp



lemma parse_entries_all_ok:
  "\<forall>l\<in>set ls. strip l = [] \<or> accepted (strip l) \<Longrightarrow> \<exists>M. parse_entries m i ls = Inr M"
proof (induction ls arbitrary: m i)
  case Nil
  then show ?case by simp
next
  case (Cons l ls)
  show ?case
  proof (cases "strip l = []")
    case True
    then show ?thesis using Cons by simp
  next
    case False
    then obtain g1 g2 g3 where "match_entry (strip l) = Some (g1, g2, g3)"
      using Cons.prems by (auto simp: accepted_def)
    then show ?thesis using False Cons by simp
  qed
qed





section \<open>Writing a matrix and reading the lines back\<close>









lemma plain_lits [simp]:
  "plain (CHR ''('')" "plain (CHR '')'')" "plain (CHR '','')" "plain (CHR '' '')" "plain (CHR ''-'')"
  "plain (CHR ''r'')" "plain (CHR ''o'')" "plain (CHR ''w'')" "plain (CHR ''s'')" "plain (CHR ''='')"
  "plain (CHR ''c'')" "plain (CHR ''l'')"
  by (simp_all add: plain_def LF_def CR_def)


















section \<open>Loading what was written; what loading builds\<close>








lemma loaded_ok_init: "0 \<le> R \<Longrightarrow> 0 \<le> C \<Longrightarrow> loaded_ok (SparseMatrix_init R C)"
  by (simp add: loaded_ok_def well_formed_def dict_ok_init keys_below_init keys_nonneg_init)
     (simp add: SparseMatrix_init_def)

lemma loaded_ok_set_element:
  "loaded_ok m \<Longrightarrow> 0 \<le> r \<Longrightarrow> 0 \<le> c \<Longrightarrow> loaded_ok (set_element m r c v)"
  by (simp add: loaded_ok_def well_formed_def dict_ok_set_element keys_below_set_element
      keys_nonneg_set_element row_count_set_element col_count_set_element le_max_iff_disj)

lemma parse_entries_loaded_ok:
  "loaded_ok m \<Longrightarrow> parse_entries m i ls = Inr M \<Longrightarrow> loaded_ok M"
proof (induction ls arbitrary: m i)
  case Nil
  then show ?case by simp
next
  case (Cons l ls)
  show ?case
  proof (cases "strip l = []")
    case True
    then show ?thesis using Cons by simp
  next
    case False
    then obtain g1 g2 g3 where m: "match_entry (strip l) = Some (g1, g2, g3)"
      using Cons.prems(2) by (cases "match_entry (strip l)") (auto simp: Let_def)
    then have d: "digits1 g1" "digits1 g2"
      using match_entry_parts [OF m] by auto
    have "loaded_ok (set_element m (py_int g1) (py_int g2) (py_int g3))"
      using Cons.prems(1) d by (intro loaded_ok_set_element) (simp_all add: py_int_nonneg)
    moreover have "parse_entries (set_element m (py_int g1) (py_int g2) (py_int g3)) (i + 1) ls = Inr M"
      using Cons.prems(2) False m by simp
    ultimately show ?thesis by (rule Cons.IH)
  qed
qed

lemma match_rows_digits: "match_rows s = Some g \<Longrightarrow> digits1 g"
  by (auto simp: match_rows_def match_digits_Some split: option.splits)

lemma match_cols_digits: "match_cols s = Some g \<Longrightarrow> digits1 g"
  by (auto simp: match_cols_def match_digits_Some split: option.splits)

lemma from_file_loaded_ok:
  assumes "from_file content = Inr M"
  shows "loaded_ok M"
proof -
  from assms obtain chars where content: "content = Some chars"
    by (cases content) (auto simp: from_file_def)
  let ?lines = "readlines chars"
  have len: "\<not> length ?lines < 2"
    using assms content by (auto simp: from_file_def Let_def split: if_splits)
  obtain g_rows where r: "match_rows (strip (?lines ! 0)) = Some g_rows"
    using assms content len by (cases "match_rows (strip (?lines ! 0))") (auto simp: from_file_def Let_def)
  obtain g_cols where c: "match_cols (strip (?lines ! 1)) = Some g_cols"
    using assms content len r by (cases "match_cols (strip (?lines ! 1))") (auto simp: from_file_def Let_def)
  have p: "parse_entries (SparseMatrix_init (py_int g_rows) (py_int g_cols)) 2 (drop 2 ?lines) = Inr M"
    using assms content len r c by (simp add: from_file_def Let_def)
  have "loaded_ok (SparseMatrix_init (py_int g_rows) (py_int g_cols))"
    using match_rows_digits [OF r] match_cols_digits [OF c]
    by (intro loaded_ok_init py_int_nonneg)
  then show ?thesis using p by (rule parse_entries_loaded_ok)
qed

lemma keys_below_from_file: "from_file content = Inr L \<Longrightarrow> keys_below L"
  using from_file_loaded_ok [of content L] by (simp add: loaded_ok_def well_formed_def)

section \<open>Claims\<close>

text \<open>
  Claim C1. For matrices \<open>A\<close> and \<open>B\<close> of equal shape, \<^verbatim>\<open>add\<close> returns a matrix
  (it does not raise), and reading the result with \<^verbatim>\<open>get_element\<close> at any
  position gives the sum of the two operands' values there. This holds at every
  pair of indices, so in particular at every \<open>(r, c)\<close> with \<open>r < row_count\<close> and
  \<open>c < col_count\<close>. The operands' dicts hold each key once (\<^const>\<open>dict_ok\<close>).
\<close>

theorem add_entrywise:
  assumes "dict_ok A" and "dict_ok B"
    and "row_count A = row_count B" and "col_count A = col_count B"
  shows "\<exists>R. add A B = Inr R \<and>
           (\<forall>r c. get_element R r c = get_element A r c + get_element B r c)"
proof -
  obtain R where R: "add A B = Inr R"
    using assms(3,4) by (simp add: add_def Let_def)
  have "get_element R r c = get_element A r c + get_element B r c" for r c
    using add_get [OF assms(1,2) R] .
  with R show ?thesis by blast
qed

theorem add_entrywise_witness:
  "dict_ok \<lparr>row_count = 2, col_count = 2, data = [((0, 0), 1), ((1, 1), 2)]\<rparr> \<and>
   dict_ok \<lparr>row_count = 2, col_count = 2, data = [((0, 0), 5), ((0, 1), 7)]\<rparr> \<and>
   add \<lparr>row_count = 2, col_count = 2, data = [((0, 0), 1), ((1, 1), 2)]\<rparr>
       \<lparr>row_count = 2, col_count = 2, data = [((0, 0), 5), ((0, 1), 7)]\<rparr>
     = Inr \<lparr>row_count = 2, col_count = 2, data = [((0, 0), 6), ((1, 1), 2), ((0, 1), 7)]\<rparr> \<and>
   (\<exists>R. add \<lparr>row_count = 2, col_count = 2, data = [((0, 0), 1), ((1, 1), 2)]\<rparr>
       \<lparr>row_count = 2, col_count = 2, data = [((0, 0), 5), ((0, 1), 7)]\<rparr> = Inr R \<and>
     (\<forall>r c. get_element R r c =
        get_element \<lparr>row_count = 2, col_count = 2, data = [((0, 0), 1), ((1, 1), 2)]\<rparr> r c +
        get_element \<lparr>row_count = 2, col_count = 2, data = [((0, 0), 5), ((0, 1), 7)]\<rparr> r c))"
proof -
  let ?A = "\<lparr>row_count = 2, col_count = 2, data = [((0, 0), 1), ((1, 1), 2)]\<rparr>"
  let ?B = "\<lparr>row_count = 2, col_count = 2, data = [((0, 0), 5), ((0, 1), 7)]\<rparr>"
  have a: "dict_ok ?A" and b: "dict_ok ?B" by (simp_all add: dict_ok_def)
  have v: "add ?A ?B = Inr \<lparr>row_count = 2, col_count = 2, data = [((0, 0), 6), ((1, 1), 2), ((0, 1), 7)]\<rparr>"
    by (simp add: add_def SparseMatrix_init_def copy_step_def add_step_def set_element_def
        get_element_def dict_get_def Let_def)
  show ?thesis
    using add_entrywise [OF a b] a b v by simp
qed



text \<open>
  Claim C3. Each of \<^verbatim>\<open>add\<close>, \<^verbatim>\<open>subtract\<close> and \<^verbatim>\<open>multiply\<close> fails exactly when its
  shape requirement is violated (equal row and column counts for \<^verbatim>\<open>add\<close> and
  \<^verbatim>\<open>subtract\<close>; \<open>col_count A = row_count B\<close> for \<^verbatim>\<open>multiply\<close>), the failure is the
  operation's dimension error, and on the store a failing call returns the store
  it was given: no result object has been allocated. A 2-by-3 matrix times a
  4-by-2 matrix fails with the dimension error of \<^verbatim>\<open>multiply\<close>. The source raises
  \<^verbatim>\<open>ValueError\<close> with a message that names the operation; these are the
  constructors \<^const>\<open>AdditionDimensions\<close>, \<^const>\<open>SubtractionDimensions\<close> and
  \<^const>\<open>MultiplicationDimensions\<close>.
\<close>

theorem dimension_mismatch_iff:
  assumes "a < length s" and "b < length s" and "A = s ! a" and "B = s ! b"
  shows
   "(isl (add A B) \<longleftrightarrow> row_count A \<noteq> row_count B \<or> col_count A \<noteq> col_count B) \<and>
    (isl (subtract A B) \<longleftrightarrow> row_count A \<noteq> row_count B \<or> col_count A \<noteq> col_count B) \<and>
    (isl (multiply A B) \<longleftrightarrow> col_count A \<noteq> row_count B) \<and>
    (isl (add A B) \<longrightarrow> add A B = Inl AdditionDimensions) \<and>
    (isl (subtract A B) \<longrightarrow> subtract A B = Inl SubtractionDimensions) \<and>
    (isl (multiply A B) \<longrightarrow> multiply A B = Inl MultiplicationDimensions) \<and>
    (row_count A = 2 \<and> col_count A = 3 \<and> row_count B = 4 \<and> col_count B = 2 \<longrightarrow>
       multiply A B = Inl MultiplicationDimensions) \<and>
    (isl (fst (add_at s a b)) \<longleftrightarrow> isl (add A B)) \<and>
    (isl (add A B) \<longrightarrow> add_at s a b = (Inl AdditionDimensions, s)) \<and>
    (isl (fst (subtract_at s a b)) \<longleftrightarrow> isl (subtract A B)) \<and>
    (isl (subtract A B) \<longrightarrow> subtract_at s a b = (Inl SubtractionDimensions, s)) \<and>
    (isl (fst (multiply_at s a b)) \<longleftrightarrow> isl (multiply A B)) \<and>
    (isl (multiply A B) \<longrightarrow> multiply_at s a b = (Inl MultiplicationDimensions, s))"
proof -
  have 4: "isl (add A B) \<longrightarrow> add A B = Inl AdditionDimensions"
    by (rule impI) (rule add_fails)
  have 5: "isl (subtract A B) \<longrightarrow> subtract A B = Inl SubtractionDimensions"
    by (rule impI) (rule subtract_fails)
  have 6: "isl (multiply A B) \<longrightarrow> multiply A B = Inl MultiplicationDimensions"
    by (rule impI) (rule multiply_fails)
  have 7: "row_count A = 2 \<and> col_count A = 3 \<and> row_count B = 4 \<and> col_count B = 2 \<longrightarrow>
            multiply A B = Inl MultiplicationDimensions"
    by (simp add: multiply_def)
  note 8 = add_at_fails [OF assms(1,2), folded assms(3,4)]
  note 9 = subtract_at_fails [OF assms(1,2), folded assms(3,4)]
  note 10 = multiply_at_fails [OF assms(1,2), folded assms(3,4)]
  show ?thesis
    by (intro conjI)
      (fact add_fails_iff subtract_fails_iff multiply_fails_iff 4 5 6 7
        8 [THEN conjunct1] 8 [THEN conjunct2] 9 [THEN conjunct1] 9 [THEN conjunct2]
        10 [THEN conjunct1] 10 [THEN conjunct2])+
qed

theorem dimension_mismatch_iff_witness:
  "multiply \<lparr>row_count = 2, col_count = 3, data = [((0, 0), 1), ((1, 2), 2)]\<rparr>
            \<lparr>row_count = 4, col_count = 2, data = [((3, 1), 5)]\<rparr> = Inl MultiplicationDimensions \<and>
   multiply_at [\<lparr>row_count = 2, col_count = 3, data = [((0, 0), 1), ((1, 2), 2)]\<rparr>,
                \<lparr>row_count = 4, col_count = 2, data = [((3, 1), 5)]\<rparr>] 0 1 =
     (Inl MultiplicationDimensions,
      [\<lparr>row_count = 2, col_count = 3, data = [((0, 0), 1), ((1, 2), 2)]\<rparr>,
       \<lparr>row_count = 4, col_count = 2, data = [((3, 1), 5)]\<rparr>]) \<and>
   \<not> isl (fst (add_at [\<lparr>row_count = 2, col_count = 3, data = [((0, 0), 1), ((1, 2), 2)]\<rparr>,
                        \<lparr>row_count = 4, col_count = 2, data = [((3, 1), 5)]\<rparr>] 0 0))"
proof -
  let ?A = "\<lparr>row_count = 2, col_count = 3, data = [((0, 0), 1), ((1, 2), 2)]\<rparr>"
  let ?B = "\<lparr>row_count = 4, col_count = 2, data = [((3, 1), 5)]\<rparr>"
  let ?s = "[?A, ?B]"
  have a: "(0 :: nat) < length ?s" and b: "(1 :: nat) < length ?s" by simp_all
  have A: "?A = ?s ! 0" and B: "?B = ?s ! 1" by simp_all
  note t = dimension_mismatch_iff [OF a b A B]
  note t3 = t [THEN conjunct2, THEN conjunct2, THEN conjunct1]
  note t7 = t [THEN conjunct2, THEN conjunct2, THEN conjunct2, THEN conjunct2, THEN conjunct2,
      THEN conjunct2, THEN conjunct1]
  note t13 = t [THEN conjunct2, THEN conjunct2, THEN conjunct2, THEN conjunct2, THEN conjunct2,
      THEN conjunct2, THEN conjunct2, THEN conjunct2, THEN conjunct2, THEN conjunct2,
      THEN conjunct2, THEN conjunct2]
  have m: "isl (multiply ?A ?B)"
    unfolding t3 by simp
  have 1: "multiply ?A ?B = Inl MultiplicationDimensions"
    by (rule t7 [THEN mp]) simp
  have 2: "multiply_at ?s 0 1 = (Inl MultiplicationDimensions, ?s)"
    using m by (rule t13 [THEN mp])
  note u = dimension_mismatch_iff [OF a a A A]
  note u1 = u [THEN conjunct1]
  note u8 = u [THEN conjunct2, THEN conjunct2, THEN conjunct2, THEN conjunct2, THEN conjunct2,
      THEN conjunct2, THEN conjunct2, THEN conjunct1]
  have "\<not> isl (add ?A ?A)"
    unfolding u1 by simp
  then have 3: "\<not> isl (fst (add_at ?s 0 0))"
    unfolding u8 .
  show ?thesis
    by (intro conjI) (fact 1 2 3)+
qed




text \<open>
  Claim C5. After \<^verbatim>\<open>set_element\<close> the key just stored lies below both
  dimensions, because the call sets \<open>row_count\<close> to \<open>max row_count (row + 1)\<close> and
  \<open>col_count\<close> to \<open>max col_count (col + 1)\<close> before it stores; and if every stored
  key lay below the dimensions before the call, every stored key does after it.
  The invariant holds of a newly constructed matrix, and of every matrix that
  \<^verbatim>\<open>from_file\<close>, \<^verbatim>\<open>add\<close>, \<^verbatim>\<open>subtract\<close> or \<^verbatim>\<open>multiply\<close> returns. This holds for
  all indices, the non-negative ones among them.
\<close>

theorem keys_stay_below_dimensions:
  "(keys_below m \<longrightarrow> keys_below (set_element m r c v)) \<and>
   r < row_count (set_element m r c v) \<and> c < col_count (set_element m r c v) \<and>
   row_count (set_element m r c v) = max (row_count m) (r + 1) \<and>
   col_count (set_element m r c v) = max (col_count m) (c + 1) \<and>
   keys_below (SparseMatrix_init R C) \<and>
   (from_file content = Inr L \<longrightarrow> keys_below L) \<and>
   (add A B = Inr S \<longrightarrow> keys_below S) \<and>
   (subtract A B = Inr D \<longrightarrow> keys_below D) \<and>
   (multiply A B = Inr P \<longrightarrow> keys_below P)"
proof -
  have 1: "keys_below m \<longrightarrow> keys_below (set_element m r c v)"
    by (rule impI) (rule keys_below_set_element)
  have 2: "r < row_count (set_element m r c v)" by (simp add: row_count_set_element)
  have 3: "c < col_count (set_element m r c v)" by (simp add: col_count_set_element)
  have 4: "from_file content = Inr L \<longrightarrow> keys_below L"
    by (rule impI) (rule keys_below_from_file)
  have 5: "add A B = Inr S \<longrightarrow> keys_below S"
    using sound_add [of A B S] by (simp add: sound_def)
  have 6: "subtract A B = Inr D \<longrightarrow> keys_below D"
    using sound_subtract [of A B D] by (simp add: sound_def)
  have 7: "multiply A B = Inr P \<longrightarrow> keys_below P"
    using sound_multiply [of A B P] by (simp add: sound_def)
  show ?thesis
    by (intro conjI) (fact 1 2 3 row_count_set_element col_count_set_element keys_below_init 4 5 6 7)+
qed

theorem keys_stay_below_dimensions_witness:
  "keys_below \<lparr>row_count = 2, col_count = 2, data = [((0, 1), 4)]\<rparr> \<and>
   set_element \<lparr>row_count = 2, col_count = 2, data = [((0, 1), 4)]\<rparr> 5 7 9 =
     \<lparr>row_count = 6, col_count = 8, data = [((0, 1), 4), ((5, 7), 9)]\<rparr> \<and>
   keys_below \<lparr>row_count = 6, col_count = 8, data = [((0, 1), 4), ((5, 7), 9)]\<rparr> \<and>
   from_file (Some ''rows=1\<newline>cols=1\<newline>(3, 4, 5)'') =
     Inr \<lparr>row_count = 4, col_count = 5, data = [((3, 4), 5)]\<rparr> \<and>
   keys_below \<lparr>row_count = 4, col_count = 5, data = [((3, 4), 5)]\<rparr>"
proof -
  let ?m = "\<lparr>row_count = 2, col_count = 2, data = [((0, 1), 4)]\<rparr>"
  let ?m' = "\<lparr>row_count = 6, col_count = 8, data = [((0, 1), 4), ((5, 7), 9)]\<rparr>"
  let ?L = "\<lparr>row_count = 4, col_count = 5, data = [((3, 4), 5)]\<rparr>"
  let ?c = "Some ''rows=1\<newline>cols=1\<newline>(3, 4, 5)''"
  have k: "keys_below ?m" by (simp add: keys_below_def)
  have e: "set_element ?m 5 7 9 = ?m'" by (simp add: set_element_def Let_def)
  have f: "from_file ?c = Inr ?L" by code_simp
  note t = keys_stay_below_dimensions [of ?m 5 7 9 0 0 ?c ?L ?m ?m ?m ?m ?m]
  have k': "keys_below (set_element ?m 5 7 9)"
    using k by (rule t [THEN conjunct1, THEN mp])
  have kL: "keys_below ?L"
    using f by (rule t [THEN conjunct2, THEN conjunct2, THEN conjunct2, THEN conjunct2,
          THEN conjunct2, THEN conjunct2, THEN conjunct1, THEN mp])
  show ?thesis
    using k e k' f kL by (simp only: simp_thms)
qed





text \<open>
  Claim C8. \<^verbatim>\<open>get_element\<close> has no failing branch: \<^const>\<open>get_element\<close> is a total
  function into the integers, defined for all indices. It returns 0 at a position
  whose key is not stored; under the bound invariant that covers every position
  at or beyond \<open>row_count\<close> or \<open>col_count\<close>; and after any sequence of
  \<^verbatim>\<open>set_element\<close> calls on a fresh matrix, a position that no call addressed
  still reads 0.
\<close>

theorem get_element_absent_is_zero:
  "((r, c) \<notin> fst ` set (data m) \<longrightarrow> get_element m r c = 0) \<and>
   (keys_below m \<and> (row_count m \<le> r \<or> col_count m \<le> c) \<longrightarrow> get_element m r c = 0) \<and>
   ((r, c) \<notin> set (map (\<lambda>(r, c, v). (r, c)) calls) \<longrightarrow>
      get_element (set_all calls (SparseMatrix_init R C)) r c = 0)"
proof (intro conjI impI)
  assume "(r, c) \<notin> fst ` set (data m)"
  then have "map_of (data m) (r, c) = None"
    by (simp add: map_of_eq_None_iff)
  then show "get_element m r c = 0"
    by (simp add: get_element_def dict_get_def)
next
  assume a: "keys_below m \<and> (row_count m \<le> r \<or> col_count m \<le> c)"
  then have "(r, c) \<notin> fst ` set (data m)"
    by (fastforce simp: keys_below_iff)
  then have "map_of (data m) (r, c) = None"
    by (simp add: map_of_eq_None_iff)
  then show "get_element m r c = 0"
    by (simp add: get_element_def dict_get_def)
next
  assume "(r, c) \<notin> set (map (\<lambda>(r, c, v). (r, c)) calls)"
  then show "get_element (set_all calls (SparseMatrix_init R C)) r c = 0"
    by (simp add: get_set_all_other get_init)
qed

theorem get_element_absent_is_zero_witness:
  "(7, 9) \<notin> fst ` set (data (set_all [(0, 1, 5), (1, 0, 6)] (SparseMatrix_init 2 2))) \<and>
   get_element (set_all [(0, 1, 5), (1, 0, 6)] (SparseMatrix_init 2 2)) 7 9 = 0 \<and>
   keys_below (set_all [(0, 1, 5), (1, 0, 6)] (SparseMatrix_init 2 2)) \<and>
   row_count (set_all [(0, 1, 5), (1, 0, 6)] (SparseMatrix_init 2 2)) \<le> 7 \<and>
   (0, 0) \<notin> set (map (\<lambda>(r, c, v). (r, c)) [(0, 1, 5), (1, 0, 6) :: int \<times> int \<times> int]) \<and>
   get_element (set_all [(0, 1, 5), (1, 0, 6)] (SparseMatrix_init 2 2)) 0 0 = 0 \<and>
   get_element (set_all [(0, 1, 5), (1, 0, 6)] (SparseMatrix_init 2 2)) 0 1 = 5"
proof -
  let ?m = "set_all [(0, 1, 5), (1, 0, 6)] (SparseMatrix_init 2 2)"
  have m: "?m = \<lparr>row_count = 2, col_count = 2, data = [((0, 1), 5), ((1, 0), 6)]\<rparr>"
    by (simp add: set_all_def SparseMatrix_init_def set_element_def Let_def)
  have h1: "(7, 9) \<notin> fst ` set (data ?m)" unfolding m by simp
  have h2: "keys_below ?m" "row_count ?m \<le> 7" unfolding m by (simp_all add: keys_below_def)
  have h3: "(0, 0) \<notin> set (map (\<lambda>(r, c, v). (r, c)) [(0, 1, 5), (1, 0, 6) :: int \<times> int \<times> int])" by simp
  have h4: "get_element ?m 0 1 = 5" unfolding m by (simp add: get_element_def dict_get_def)
  from get_element_absent_is_zero [of 7 9 ?m "[(0, 1, 5), (1, 0, 6)]" 2 2] h1
  have g1: "get_element ?m 7 9 = 0" by blast
  from get_element_absent_is_zero [of 0 0 ?m "[(0, 1, 5), (1, 0, 6)]" 2 2] h3
  have g2: "get_element ?m 0 0 = 0" by blast
  show ?thesis using h1 h2 h3 h4 g1 g2 by blast
qed

text \<open>
  Claim C9. On a store of objects, with the operands any two live objects
  (possibly the same one), each of \<^verbatim>\<open>add\<close>, \<^verbatim>\<open>subtract\<close> and \<^verbatim>\<open>multiply\<close> either
  fails and leaves the store as it was, or returns the reference of one newly
  allocated object and leaves every object that existed before as it was; so both
  operands, with their \<open>row_count\<close>, \<open>col_count\<close> and entries, are unchanged.
\<close>

theorem arithmetic_leaves_operands_unchanged:
  assumes "a < length s" and "b < length s"
  shows "writes_only_fresh s (add_at s a b) \<and> operands_unchanged s a b (add_at s a b) \<and>
         writes_only_fresh s (subtract_at s a b) \<and> operands_unchanged s a b (subtract_at s a b) \<and>
         writes_only_fresh s (multiply_at s a b) \<and> operands_unchanged s a b (multiply_at s a b)"
proof -
  have 1: "writes_only_fresh s (add_at s a b) \<and> operands_unchanged s a b (add_at s a b)"
    using assms add_at_refines [OF assms] by (rule refines_pure)
  have 2: "writes_only_fresh s (subtract_at s a b) \<and> operands_unchanged s a b (subtract_at s a b)"
    using assms subtract_at_refines [OF assms] by (rule refines_pure)
  have 3: "writes_only_fresh s (multiply_at s a b) \<and> operands_unchanged s a b (multiply_at s a b)"
    using assms multiply_at_refines [OF assms] by (rule refines_pure)
  from 1 2 3 show ?thesis by (intro conjI) (erule conjunct1 conjunct2)+
qed

theorem arithmetic_leaves_operands_unchanged_witness:
  "(0 :: nat) < length [\<lparr>row_count = 1, col_count = 2, data = [((0, 0), 1), ((0, 1), 2)]\<rparr>,
                        \<lparr>row_count = 2, col_count = 1, data = [((0, 0), 3), ((1, 0), 4)]\<rparr>] \<and>
   (1 :: nat) < length [\<lparr>row_count = 1, col_count = 2, data = [((0, 0), 1), ((0, 1), 2)]\<rparr>,
                        \<lparr>row_count = 2, col_count = 1, data = [((0, 0), 3), ((1, 0), 4)]\<rparr>] \<and>
   multiply_at [\<lparr>row_count = 1, col_count = 2, data = [((0, 0), 1), ((0, 1), 2)]\<rparr>,
                \<lparr>row_count = 2, col_count = 1, data = [((0, 0), 3), ((1, 0), 4)]\<rparr>] 0 1 =
     (Inr 2, [\<lparr>row_count = 1, col_count = 2, data = [((0, 0), 1), ((0, 1), 2)]\<rparr>,
              \<lparr>row_count = 2, col_count = 1, data = [((0, 0), 3), ((1, 0), 4)]\<rparr>,
              \<lparr>row_count = 1, col_count = 1, data = [((0, 0), 11)]\<rparr>]) \<and>
   add_at [\<lparr>row_count = 1, col_count = 2, data = [((0, 0), 1), ((0, 1), 2)]\<rparr>,
           \<lparr>row_count = 2, col_count = 1, data = [((0, 0), 3), ((1, 0), 4)]\<rparr>] 0 1 =
     (Inl AdditionDimensions,
      [\<lparr>row_count = 1, col_count = 2, data = [((0, 0), 1), ((0, 1), 2)]\<rparr>,
       \<lparr>row_count = 2, col_count = 1, data = [((0, 0), 3), ((1, 0), 4)]\<rparr>]) \<and>
   writes_only_fresh [\<lparr>row_count = 1, col_count = 2, data = [((0, 0), 1), ((0, 1), 2)]\<rparr>,
                      \<lparr>row_count = 2, col_count = 1, data = [((0, 0), 3), ((1, 0), 4)]\<rparr>]
     (multiply_at [\<lparr>row_count = 1, col_count = 2, data = [((0, 0), 1), ((0, 1), 2)]\<rparr>,
                   \<lparr>row_count = 2, col_count = 1, data = [((0, 0), 3), ((1, 0), 4)]\<rparr>] 0 1) \<and>
   operands_unchanged [\<lparr>row_count = 1, col_count = 2, data = [((0, 0), 1), ((0, 1), 2)]\<rparr>,
                       \<lparr>row_count = 2, col_count = 1, data = [((0, 0), 3), ((1, 0), 4)]\<rparr>] 0 1
     (multiply_at [\<lparr>row_count = 1, col_count = 2, data = [((0, 0), 1), ((0, 1), 2)]\<rparr>,
                   \<lparr>row_count = 2, col_count = 1, data = [((0, 0), 3), ((1, 0), 4)]\<rparr>] 0 1)"
proof -
  let ?A = "\<lparr>row_count = 1, col_count = 2, data = [((0, 0), 1), ((0, 1), 2)]\<rparr>"
  let ?B = "\<lparr>row_count = 2, col_count = 1, data = [((0, 0), 3), ((1, 0), 4)]\<rparr>"
  let ?s = "[?A, ?B]"
  have a: "(0 :: nat) < length ?s" and b: "(1 :: nat) < length ?s" by simp_all
  have r: "py_range 1 = [0]" by (simp add: py_range_def upto.simps)
  have m: "multiply ?A ?B = Inr \<lparr>row_count = 1, col_count = 1, data = [((0, 0), 11)]\<rparr>"
    by (simp add: multiply_def mul_step_def mul_inner_def r SparseMatrix_init_def set_element_def
        get_element_def dict_get_def Let_def)
  have ad: "add ?A ?B = Inl AdditionDimensions"
    by (simp add: add_def)
  have m_at: "multiply_at ?s 0 1 = (Inr 2, [?A, ?B, \<lparr>row_count = 1, col_count = 1, data = [((0, 0), 11)]\<rparr>])"
    using multiply_at_refines [OF a b] m by simp
  have a_at: "add_at ?s 0 1 = (Inl AdditionDimensions, ?s)"
    using add_at_refines [OF a b] ad by simp
  note t = arithmetic_leaves_operands_unchanged [OF a b]
  note w = t [THEN conjunct2, THEN conjunct2, THEN conjunct2, THEN conjunct2, THEN conjunct1]
  note u = t [THEN conjunct2, THEN conjunct2, THEN conjunct2, THEN conjunct2, THEN conjunct2]
  show ?thesis
    by (intro conjI) (fact a b m_at a_at w u)+
qed

text \<open>
  Claim C10. \<^verbatim>\<open>set_element\<close> with a negative row or column index has no failing
  branch (\<^const>\<open>set_element\<close> is total): the entry is stored under the negative
  key, a later \<^verbatim>\<open>get_element\<close> at the same indices returns the stored value,
  and, the counts being non-negative, a negative row index leaves \<open>row_count\<close>
  unchanged and a negative column index leaves \<open>col_count\<close> unchanged.
\<close>

theorem set_element_negative_index:
  assumes "0 \<le> row_count m" and "0 \<le> col_count m" and "r < 0 \<or> c < 0"
  shows "data (set_element m r c v) = dict_set (data m) (r, c) v \<and>
         ((r, c), v) \<in> set (data (set_element m r c v)) \<and>
         get_element (set_element m r c v) r c = v \<and>
         (r < 0 \<longrightarrow> row_count (set_element m r c v) = row_count m) \<and>
         (c < 0 \<longrightarrow> col_count (set_element m r c v) = col_count m)"
  using assms
  by (auto simp: data_set_element dict_set_mem get_set_element row_count_set_element
      col_count_set_element)

theorem set_element_negative_index_witness:
  "set_element (SparseMatrix_init 2 2) (- 1) (- 3) 9 = \<lparr>row_count = 2, col_count = 2, data = [((- 1, - 3), 9)]\<rparr> \<and>
   get_element (set_element (SparseMatrix_init 2 2) (- 1) (- 3) 9) (- 1) (- 3) = 9 \<and>
   row_count (set_element (SparseMatrix_init 2 2) (- 1) 5 9) = 2 \<and>
   col_count (set_element (SparseMatrix_init 2 2) (- 1) 5 9) = 6"
proof -
  have a: "0 \<le> row_count (SparseMatrix_init 2 2)" "0 \<le> col_count (SparseMatrix_init 2 2)"
    by (simp_all add: SparseMatrix_init_def)
  have n: "(- 1 :: int) < 0 \<or> (- 3 :: int) < 0" "(- 1 :: int) < 0 \<or> (5 :: int) < 0" by simp_all
  from set_element_negative_index [OF a n(1), of 9]
  have g: "get_element (set_element (SparseMatrix_init 2 2) (- 1) (- 3) 9) (- 1) (- 3) = 9" by blast
  from set_element_negative_index [OF a n(2), of 9]
  have r: "row_count (set_element (SparseMatrix_init 2 2) (- 1) 5 9) = 2"
    by (simp add: SparseMatrix_init_def)
  have e: "set_element (SparseMatrix_init 2 2) (- 1) (- 3) 9 = \<lparr>row_count = 2, col_count = 2, data = [((- 1, - 3), 9)]\<rparr>"
    by (simp add: set_element_def SparseMatrix_init_def Let_def)
  have c: "col_count (set_element (SparseMatrix_init 2 2) (- 1) 5 9) = 6"
    by (simp add: set_element_def SparseMatrix_init_def Let_def)
  show ?thesis using g r e c by blast
qed

end
